theory Spec2Isabelle
  imports Main "HOL-Library.Word" "HOL-Library.Signed_Division"
begin

section \<open>The canary producer service (internal/services/producer.go)\<close>

text \<open>
  A shallow embedding of \<^verbatim>\<open>ProducerService\<close>: its constructor, the message factory
  \<^verbatim>\<open>newCanaryMessage\<close>, the partition fan-out \<^verbatim>\<open>Send\<close>, and the lifecycle operations
  \<^verbatim>\<open>Refresh\<close> and \<^verbatim>\<open>Close\<close>.

  Go's \<^verbatim>\<open>int\<close> is taken at 64 bits, its width on the 64-bit targets (amd64, arm64,
  ppc64le, s390x); \<^verbatim>\<open>int32\<close> and \<^verbatim>\<open>int64\<close> are words of their width. Arithmetic on
  them wraps, comparisons are signed, and a conversion to a narrower type keeps the low
  bits, as the Go specification says.
\<close>

subsection \<open>Data\<close>

type_synonym go_int = "64 word"
type_synonym int32 = "32 word"
type_synonym int64 = "64 word"

text \<open>A Go \<^verbatim>\<open>error\<close> value that is not \<^verbatim>\<open>nil\<close> is its message; \<^verbatim>\<open>nil\<close> is \<open>None\<close>.\<close>

type_synonym error = string

text \<open>
  \<^verbatim>\<open>config.CanaryConfig\<close> is declared in another package; these are the fields the
  service reads (\<^verbatim>\<open>ProducerLatencyBuckets\<close> only configures the buckets of the
  histogram and is left out).
\<close>

record CanaryConfig =
  Topic :: string
  ClientID :: string

text \<open>
  \<^verbatim>\<open>CanaryMessage\<close> is declared in another file of the package; the fields are the ones
  \<^verbatim>\<open>newCanaryMessage\<close> fills in.
\<close>

record CanaryMessage =
  ProducerID :: string
  MessageID :: go_int
  Timestamp :: int64

datatype json_value = JString string | JNumber int

type_synonym json_object = "(string \<times> json_value) list"

text \<open>
  Modelled from the spec: the method \<^verbatim>\<open>CanaryMessage.Json\<close> is called by \<^verbatim>\<open>Send\<close> but
  defined in a file that is not part of the sources. The specification gives the wire
  format as
  \<^verbatim>\<open>{"producerId": "<string>", "messageId": <integer>, "timestamp": <integer-millis>}\<close>
  with \<^verbatim>\<open>producerId\<close> the client identity, \<^verbatim>\<open>messageId\<close> the sequence number and
  \<^verbatim>\<open>timestamp\<close> the creation time, and no other field. The payload is kept as the
  JSON object (its fields in order), not as text.
\<close>

definition Json :: "CanaryMessage \<Rightarrow> json_object" where
  "Json cm =
     [(''producerId'', JString (ProducerID cm)),
      (''messageId'', JNumber (sint (MessageID cm))),
      (''timestamp'', JNumber (sint (Timestamp cm)))]"

text \<open>
  \<^verbatim>\<open>sarama.ProducerMessage\<close>, with the fields \<^verbatim>\<open>Send\<close> sets. \<^verbatim>\<open>Value\<close> is \<^verbatim>\<open>nil\<close>
  (\<open>None\<close>) until the loop assigns it.
\<close>

record ProducerMessage =
  msgTopic :: string
  Value :: "json_object option"
  Partition :: int32

text \<open>\<^verbatim>\<open>ProducerService\<close>: the configuration and the counter \<^verbatim>\<open>index\<close>. The handles
  \<^verbatim>\<open>client\<close> and \<^verbatim>\<open>producer\<close> stand for the broker, which is the environment below.\<close>

record ProducerService =
  canaryConfig :: CanaryConfig
  index :: go_int

subsection \<open>Effects\<close>

text \<open>One constructor for each \<^verbatim>\<open>log.Printf\<close> of the file, with its arguments.\<close>

datatype log_line =
    LogErrorCreatingProducer error
  | LogSendingMessage "json_object option" int32
  | LogErrorSendingMessage error
  | LogMessageSent int32 int64 int64
  | LogRefreshingMetadata
  | LogErrorRefreshingMetadata error
  | LogClosingProducer
  | LogErrorClosingProducer error
  | LogProducerClosed

text \<open>
  Every call that leaves the service is an event of the trace, in the order the calls are
  made, with what the call returned: a reading of the clock
  (\<^verbatim>\<open>time.Now().UnixNano()\<close>), a log line, and the four calls on the broker client.
\<close>

datatype event =
    UnixNano int64
  | Printf log_line
  | NewSyncProducerFromClient "error option"
  | SendMessage ProducerMessage "int32 \<times> int64 \<times> error option"
  | RefreshMetadata string "error option"
  | ProducerClose "error option"

text \<open>
  The environment answers each external call. An answer may depend on everything that
  happened before (the trace so far) and on the argument of the call, so that any clock
  and any broker, failing on any subset of the calls, is an environment.
\<close>

record env =
  env_UnixNano :: "event list \<Rightarrow> int64"
  env_NewSyncProducerFromClient :: "event list \<Rightarrow> error option"
  env_SendMessage :: "event list \<Rightarrow> ProducerMessage \<Rightarrow> int32 \<times> int64 \<times> error option"
  env_RefreshMetadata :: "event list \<Rightarrow> string \<Rightarrow> error option"
  env_Close :: "event list \<Rightarrow> error option"

text \<open>
  The label set \<^verbatim>\<open>{"clientid": c, "partition": p}\<close> of a metric is the pair \<open>(c, p)\<close>.
  \<^verbatim>\<open>float64(duration)\<close> is kept as the converted integer: the sample is
  \<open>Float64 d\<close> for the \<^verbatim>\<open>int64\<close> value \<open>d\<close> that was converted.
\<close>

type_synonym labels = "string \<times> string"

datatype float64 = Float64 int64

text \<open>
  The state outside the service value: the trace and the three package-level metric
  vectors. A counter holds the number of its \<^verbatim>\<open>Inc\<close> calls, a histogram the samples
  handed to \<^verbatim>\<open>Observe\<close>, oldest first.
\<close>

record world =
  trace :: "event list"
  recordsProduced :: "labels \<Rightarrow> nat"
  recordsProducedFailed :: "labels \<Rightarrow> nat"
  recordsProducedLatency :: "labels \<Rightarrow> float64 list"

text \<open>How the process ends when a call does not return: \<^verbatim>\<open>os.Exit\<close> or \<^verbatim>\<open>panic\<close>.\<close>

datatype abort = Exit int | Panic error

definition emit :: "event \<Rightarrow> world \<Rightarrow> world" where
  "emit e w = w\<lparr>trace := trace w @ [e]\<rparr>"

definition Inc :: "labels \<Rightarrow> (labels \<Rightarrow> nat) \<Rightarrow> (labels \<Rightarrow> nat)" where
  "Inc l c = c(l := Suc (c l))"

definition Observe :: "labels \<Rightarrow> float64 \<Rightarrow> (labels \<Rightarrow> float64 list) \<Rightarrow> (labels \<Rightarrow> float64 list)" where
  "Observe l x h = h(l := h l @ [x])"

subsection \<open>Standard library: decimal printing and the millisecond clock\<close>

text \<open>\<^verbatim>\<open>strconv.Itoa\<close>: the decimal representation, with a minus sign for a negative
  number.\<close>

definition digit :: "nat \<Rightarrow> char" where
  "digit d = ''0123456789'' ! d"

fun formatDec :: "nat \<Rightarrow> string" where
  "formatDec n = (if n < 10 then [digit n] else formatDec (n div 10) @ [digit (n mod 10)])"

declare formatDec.simps [simp del]

definition Itoa :: "go_int \<Rightarrow> string" where
  "Itoa i = (if sint i < 0 then CHR ''-'' # formatDec (nat (- sint i)) else formatDec (nat (sint i)))"

text \<open>\<^verbatim>\<open>x / 1000000\<close> on \<^verbatim>\<open>int64\<close>: Go's division truncates towards zero.\<close>

definition millis :: "int64 \<Rightarrow> int64" where
  "millis x = word_of_int (sint x sdiv 1000000)"

subsection \<open>The service\<close>

text \<open>
  \<^verbatim>\<open>NewProducerService\<close>: a fresh latency histogram, then the sync producer; a failure
  to create it is logged and panics. The struct literal does not mention \<^verbatim>\<open>index\<close>, which
  is therefore Go's zero value.
\<close>

definition NewProducerService :: "env \<Rightarrow> CanaryConfig \<Rightarrow> world \<Rightarrow> abort \<times> world + ProducerService \<times> world" where
  "NewProducerService en cfg w =
     (let w1 = w\<lparr>recordsProducedLatency := (\<lambda>l. [])\<rparr>;
          err = env_NewSyncProducerFromClient en (trace w1);
          w2 = emit (NewSyncProducerFromClient err) w1
      in case err of
           Some e \<Rightarrow> Inl (Panic e, emit (Printf (LogErrorCreatingProducer e)) w2)
         | None \<Rightarrow> Inr (\<lparr>canaryConfig = cfg, index = 0\<rparr>, w2))"

definition newCanaryMessage :: "env \<Rightarrow> ProducerService \<times> world \<Rightarrow> CanaryMessage \<times> ProducerService \<times> world" where
  "newCanaryMessage en = (\<lambda>(ps, w).
     let ps1 = ps\<lparr>index := index ps + 1\<rparr>;
         now = env_UnixNano en (trace w);
         w1 = emit (UnixNano now) w;
         timestamp = millis now;
         cm = \<lparr>ProducerID = ClientID (canaryConfig ps1),
               MessageID = index ps1,
               Timestamp = timestamp\<rparr>
     in (cm, ps1, w1))"

text \<open>
  One iteration of the loop of \<^verbatim>\<open>Send\<close>, for the loop variable \<open>i\<close>. The message \<open>msg\<close>
  is the one object allocated before the loop; the iteration overwrites its \<^verbatim>\<open>Value\<close> and
  its \<^verbatim>\<open>Partition\<close>.
\<close>

definition Send_body :: "env \<Rightarrow> go_int \<Rightarrow> ProducerMessage \<times> ProducerService \<times> world
    \<Rightarrow> ProducerMessage \<times> ProducerService \<times> world" where
  "Send_body en i = (\<lambda>(msg, ps, w).
     let (cm, ps1, w1) = newCanaryMessage en (ps, w);
         msg1 = msg\<lparr>Value := Some (Json cm)\<rparr>;
         msg2 = msg1\<lparr>Partition := ucast i\<rparr>;
         w2 = emit (Printf (LogSendingMessage (Value msg2) (Partition msg2))) w1;
         (partition, offset, err) = env_SendMessage en (trace w2) msg2;
         w3 = emit (SendMessage msg2 (partition, offset, err)) w2;
         now = env_UnixNano en (trace w3);
         w4 = emit (UnixNano now) w3;
         timestamp = millis now;
         labels = (ClientID (canaryConfig ps1), Itoa i);
         w5 = w4\<lparr>recordsProduced := Inc labels (recordsProduced w4)\<rparr>
     in case err of
          Some e \<Rightarrow>
            (let w6 = emit (Printf (LogErrorSendingMessage e)) w5;
                 w7 = w6\<lparr>recordsProducedFailed := Inc labels (recordsProducedFailed w6)\<rparr>
             in (msg2, ps1, w7))
        | None \<Rightarrow>
            (let duration = timestamp - Timestamp cm;
                 w6 = emit (Printf (LogMessageSent partition offset duration)) w5;
                 w7 = w6\<lparr>recordsProducedLatency :=
                          Observe labels (Float64 duration) (recordsProducedLatency w6)\<rparr>
             in (msg2, ps1, w7)))"

text \<open>The loop \<^verbatim>\<open>for i := 0; i < numPartitions; i++\<close>, from the current value of \<open>i\<close>.\<close>

function Send_loop :: "env \<Rightarrow> go_int \<Rightarrow> go_int \<Rightarrow> ProducerMessage \<times> ProducerService \<times> world
    \<Rightarrow> ProducerMessage \<times> ProducerService \<times> world" where
  "Send_loop en i numPartitions s =
     (if i <s numPartitions then Send_loop en (i + 1) numPartitions (Send_body en i s) else s)"
  by pat_completeness auto
termination
proof (relation "measure (\<lambda>(en, i, numPartitions, s). nat (sint numPartitions - sint i))")
  show "wf (measure (\<lambda>(en, i, numPartitions, s). nat (sint numPartitions - sint i)))"
    by simp
next
  fix en :: env and i numPartitions :: go_int
    and s :: "ProducerMessage \<times> ProducerService \<times> world"
  assume "i <s numPartitions"
  then have lt: "sint i < sint numPartitions"
    by (simp add: word_sless_alt)
  have "sint numPartitions < 2 ^ 63" "- (2 ^ 63) \<le> sint i"
    using sint_lt [of numPartitions] sint_ge [of i] by simp_all
  with lt have "- (2 ^ 63) \<le> sint i + 1" "sint i + 1 < 2 ^ 63"
    by simp_all
  then have "signed_take_bit 63 (sint i + 1) = sint i + 1"
    by (intro signed_take_bit_int_eq_self) simp_all
  then have "sint (i + 1) = sint i + 1"
    by (simp add: sint_word_ariths)
  with lt show "((en, i + 1, numPartitions, Send_body en i s), (en, i, numPartitions, s))
      \<in> measure (\<lambda>(en, i, numPartitions, s). nat (sint numPartitions - sint i))"
    by simp
qed

declare Send_loop.simps [simp del]

definition Send :: "env \<Rightarrow> go_int \<Rightarrow> ProducerService \<times> world \<Rightarrow> ProducerService \<times> world" where
  "Send en numPartitions = (\<lambda>(ps, w).
     let msg = \<lparr>msgTopic = Topic (canaryConfig ps), Value = None, Partition = 0\<rparr>
     in snd (Send_loop en 0 numPartitions (msg, ps, w)))"

text \<open>\<^verbatim>\<open>Refresh\<close>: the error of the client's \<^verbatim>\<open>RefreshMetadata\<close> is logged and dropped.\<close>

definition Refresh :: "env \<Rightarrow> ProducerService \<times> world \<Rightarrow> ProducerService \<times> world" where
  "Refresh en = (\<lambda>(ps, w).
     let w1 = emit (Printf LogRefreshingMetadata) w;
         err = env_RefreshMetadata en (trace w1) (Topic (canaryConfig ps));
         w2 = emit (RefreshMetadata (Topic (canaryConfig ps)) err) w1
     in case err of
          Some e \<Rightarrow> (ps, emit (Printf (LogErrorRefreshingMetadata e)) w2)
        | None \<Rightarrow> (ps, w2))"

text \<open>\<^verbatim>\<open>Close\<close>: an error of the producer's \<^verbatim>\<open>Close\<close> is logged and ends the process with
  \<^verbatim>\<open>os.Exit(1)\<close>.\<close>

definition Close :: "env \<Rightarrow> ProducerService \<times> world \<Rightarrow> abort \<times> world + ProducerService \<times> world" where
  "Close en = (\<lambda>(ps, w).
     let w1 = emit (Printf LogClosingProducer) w;
         err = env_Close en (trace w1);
         w2 = emit (ProducerClose err) w1
     in case err of
          Some e \<Rightarrow> Inl (Exit 1, emit (Printf (LogErrorClosingProducer e)) w2)
        | None \<Rightarrow> Inr (ps, emit (Printf LogProducerClosed) w2))"

subsection \<open>Observations\<close>

text \<open>
  The send attempts recorded in a trace, oldest first: the message handed to
  \<^verbatim>\<open>SendMessage\<close> and what the call returned.
\<close>

fun attempts :: "event list \<Rightarrow> (ProducerMessage \<times> int32 \<times> int64 \<times> error option) list" where
  "attempts [] = []"
| "attempts (SendMessage m r # es) = (m, r) # attempts es"
| "attempts (e # es) = attempts es"

text \<open>The attempts that the world \<open>w'\<close> has in addition to those of the earlier world \<open>w\<close>.\<close>

definition newAttempts :: "world \<Rightarrow> world \<Rightarrow> (ProducerMessage \<times> int32 \<times> int64 \<times> error option) list" where
  "newAttempts w w' = drop (length (attempts (trace w))) (attempts (trace w'))"

text \<open>
  What the environment answers during one iteration of the loop: the clock reading taken
  by \<^verbatim>\<open>newCanaryMessage\<close>, the result of \<^verbatim>\<open>SendMessage\<close>, and the clock reading taken
  after \<^verbatim>\<open>SendMessage\<close> has returned.
\<close>

record exchange =
  createdNanos :: int64
  result :: "int32 \<times> int64 \<times> error option"
  ackNanos :: int64

definition failed :: "exchange \<Rightarrow> bool" where
  "failed x = (snd (snd (result x)) \<noteq> None)"

definition latency :: "exchange \<Rightarrow> int64" where
  "latency x = millis (ackNanos x) - millis (createdNanos x)"

text \<open>The labels, the probe message and the broker message of iteration \<open>k\<close> of a call of
  \<^verbatim>\<open>Send\<close> that starts with the service value \<open>ps\<close>.\<close>

definition partitionLabels :: "ProducerService \<Rightarrow> nat \<Rightarrow> labels" where
  "partitionLabels ps k = (ClientID (canaryConfig ps), Itoa (of_nat k))"

definition probe :: "ProducerService \<Rightarrow> nat \<Rightarrow> exchange \<Rightarrow> CanaryMessage" where
  "probe ps k x = \<lparr>ProducerID = ClientID (canaryConfig ps),
                   MessageID = index ps + of_nat (Suc k),
                   Timestamp = millis (createdNanos x)\<rparr>"

definition sent :: "ProducerService \<Rightarrow> nat \<Rightarrow> exchange \<Rightarrow> ProducerMessage" where
  "sent ps k x =
     \<lparr>msgTopic = Topic (canaryConfig ps), Value = Some (Json (probe ps k x)), Partition = of_nat k\<rparr>"

text \<open>The events of iteration \<open>k\<close>, in the order in which they happen.\<close>

definition attemptEvents :: "ProducerService \<Rightarrow> nat \<Rightarrow> exchange \<Rightarrow> event list" where
  "attemptEvents ps k x =
     [UnixNano (createdNanos x),
      Printf (LogSendingMessage (Some (Json (probe ps k x))) (of_nat k)),
      SendMessage (sent ps k x) (result x),
      UnixNano (ackNanos x),
      Printf (case result x of
                (p, off, Some e) \<Rightarrow> LogErrorSendingMessage e
              | (p, off, None) \<Rightarrow> LogMessageSent p off (latency x))]"

definition numbered :: "'a list \<Rightarrow> (nat \<times> 'a) list" where
  "numbered xs = zip [0..<length xs] xs"

text \<open>
  The effect of the iterations \<open>0, 1, \<dots>\<close> whose exchanges are \<open>xs\<close>: the events, and for
  a label set \<open>l\<close> the number of \<^verbatim>\<open>Inc\<close> calls on the two counters and the samples observed.
\<close>

definition eventsBy :: "ProducerService \<Rightarrow> exchange list \<Rightarrow> event list" where
  "eventsBy ps xs = concat (map (\<lambda>(k, x). attemptEvents ps k x) (numbered xs))"

definition producedBy :: "ProducerService \<Rightarrow> exchange list \<Rightarrow> labels \<Rightarrow> nat" where
  "producedBy ps xs l = length (filter (\<lambda>(k, x). partitionLabels ps k = l) (numbered xs))"

definition failedBy :: "ProducerService \<Rightarrow> exchange list \<Rightarrow> labels \<Rightarrow> nat" where
  "failedBy ps xs l = length (filter (\<lambda>(k, x). partitionLabels ps k = l \<and> failed x) (numbered xs))"

definition samplesBy :: "ProducerService \<Rightarrow> exchange list \<Rightarrow> labels \<Rightarrow> float64 list" where
  "samplesBy ps xs l =
     map (\<lambda>(k, x). Float64 (latency x))
       (filter (\<lambda>(k, x). partitionLabels ps k = l \<and> \<not> failed x) (numbered xs))"

text \<open>Every result among the exchanges is an answer of the environment to the message of
  its iteration.\<close>

definition answered :: "env \<Rightarrow> ProducerService \<Rightarrow> exchange list \<Rightarrow> bool" where
  "answered en ps xs =
     (\<forall>(k, x) \<in> set (numbered xs). \<exists>tr. result x = env_SendMessage en tr (sent ps k x))"

text \<open>The first \<open>m\<close> iterations of the loop.\<close>

definition iterate :: "env \<Rightarrow> nat \<Rightarrow> ProducerMessage \<times> ProducerService \<times> world
    \<Rightarrow> ProducerMessage \<times> ProducerService \<times> world" where
  "iterate en m s = fold (\<lambda>k. Send_body en (of_nat k)) [0..<m] s"

subsection \<open>A fake environment\<close>

text \<open>
  A clock that advances by one millisecond with every event, and a broker that refuses
  every message for partition 1, fails every metadata refresh, and accepts the first
  \<^verbatim>\<open>Close\<close> of the producer but reports an error for any later one.
\<close>

definition fakeEnv :: env where
  "fakeEnv =
     \<lparr>env_UnixNano = (\<lambda>tr. 1000000 * of_nat (length tr)),
      env_NewSyncProducerFromClient = (\<lambda>tr. None),
      env_SendMessage = (\<lambda>tr m. if Partition m = 1 then (0, 0, Some ''leader not available'')
                                  else (Partition m, 7, None)),
      env_RefreshMetadata = (\<lambda>tr t. Some ''out of brokers''),
      env_Close = (\<lambda>tr. if ProducerClose None \<in> set tr then Some ''producer already closed'' else None)\<rparr>"

definition fakeConfig :: CanaryConfig where
  "fakeConfig = \<lparr>Topic = ''__strimzi_canary'', ClientID = ''canary''\<rparr>"

definition fakeService :: ProducerService where
  "fakeService = \<lparr>canaryConfig = fakeConfig, index = 0\<rparr>"

definition emptyWorld :: world where
  "emptyWorld = \<lparr>trace = [], recordsProduced = (\<lambda>l. 0), recordsProducedFailed = (\<lambda>l. 0),
     recordsProducedLatency = (\<lambda>l. [])\<rparr>"

section \<open>Auxiliary facts\<close>

subsection \<open>Decimal printing is injective\<close>

lemma digit_inj: "a < 10 \<Longrightarrow> b < 10 \<Longrightarrow> digit a = digit b \<Longrightarrow> a = b"
proof -
  assume a: "a < 10" and b: "b < 10" and eq: "digit a = digit b"
  have d: "distinct ''0123456789''" by simp
  have "a < length ''0123456789''" "b < length ''0123456789''" using a b by simp_all
  with d eq show "a = b" unfolding digit_def by (simp only: nth_eq_iff_index_eq)
qed

lemma digit_not_minus: "d < 10 \<Longrightarrow> digit d \<noteq> CHR ''-''"
proof -
  assume "d < 10"
  then have "digit d \<in> set ''0123456789''"
    unfolding digit_def by (intro nth_mem) simp
  then show ?thesis by auto
qed

lemma formatDec_nonempty: "formatDec n \<noteq> []"
  by (subst formatDec.simps) simp

lemma formatDec_last: "last (formatDec n) = digit (n mod 10)"
  by (subst formatDec.simps) simp

lemma formatDec_butlast: "butlast (formatDec n) = (if n < 10 then [] else formatDec (n div 10))"
  by (subst formatDec.simps) simp

lemma formatDec_no_minus: "CHR ''-'' \<notin> set (formatDec n)"
proof (induction n rule: formatDec.induct)
  case (1 n)
  show ?case
  proof (cases "n < 10")
    case True
    then show ?thesis by (subst formatDec.simps) (simp add: digit_not_minus [symmetric, simplified] digit_not_minus)
  next
    case False
    have "n mod 10 < 10" by simp
    then have "digit (n mod 10) \<noteq> CHR ''-''" by (rule digit_not_minus)
    with False "1.IH" show ?thesis by (subst formatDec.simps) auto
  qed
qed

lemma formatDec_inj: "formatDec a = formatDec b \<Longrightarrow> a = b"
proof (induction a arbitrary: b rule: formatDec.induct)
  case (1 n)
  from "1.prems" have "last (formatDec n) = last (formatDec b)" by simp
  then have "digit (n mod 10) = digit (b mod 10)" by (simp only: formatDec_last)
  then have m: "n mod 10 = b mod 10" by (intro digit_inj) simp_all
  from "1.prems" have bl: "butlast (formatDec n) = butlast (formatDec b)" by simp
  show ?case
  proof (cases "n < 10")
    case True
    with bl have "b < 10" using formatDec_nonempty [of "b div 10"]
      by (simp add: formatDec_butlast split: if_splits)
    with True m show ?thesis by simp
  next
    case False
    with bl have b: "\<not> b < 10" using formatDec_nonempty [of "n div 10"]
      by (simp add: formatDec_butlast split: if_splits)
    with False bl have "formatDec (n div 10) = formatDec (b div 10)"
      by (simp add: formatDec_butlast)
    with False have "n div 10 = b div 10" by (rule "1.IH")
    with m show ?thesis by (metis div_mult_mod_eq)
  qed
qed

lemma Itoa_inj: "Itoa i = Itoa j \<Longrightarrow> i = j"
proof -
  assume eq: "Itoa i = Itoa j"
  have no: "CHR ''-'' # xs \<noteq> formatDec n" for xs n
    using formatDec_no_minus [of n] by (metis list.set_intros(1))
  have "sint i = sint j"
  proof (cases "sint i < 0"; cases "sint j < 0")
    assume "sint i < 0" "sint j < 0"
    with eq have "formatDec (nat (- sint i)) = formatDec (nat (- sint j))" by (simp add: Itoa_def)
    then have "nat (- sint i) = nat (- sint j)" by (rule formatDec_inj)
    with \<open>sint i < 0\<close> \<open>sint j < 0\<close> show ?thesis by linarith
  next
    assume "sint i < 0" "\<not> sint j < 0"
    with eq no show ?thesis by (simp add: Itoa_def)
  next
    assume "\<not> sint i < 0" "sint j < 0"
    with eq no [symmetric] show ?thesis by (simp add: Itoa_def)
  next
    assume "\<not> sint i < 0" "\<not> sint j < 0"
    with eq have "formatDec (nat (sint i)) = formatDec (nat (sint j))" by (simp add: Itoa_def)
    then have "nat (sint i) = nat (sint j)" by (rule formatDec_inj)
    with \<open>\<not> sint i < 0\<close> \<open>\<not> sint j < 0\<close> show ?thesis by linarith
  qed
  then show "i = j" by (rule signed_word_eqI)
qed


subsection \<open>The loop as an iteration over the partition indices\<close>

lemma sint_succ_of_sless:
  fixes i n :: go_int
  assumes "i <s n"
  shows "sint (i + 1) = sint i + 1"
proof -
  have "sint i < sint n" using assms by (simp add: word_sless_alt)
  moreover have "sint n < 2 ^ 63" using sint_lt [of n] by simp
  moreover have "- (2 ^ 63) \<le> sint i" using sint_ge [of i] by simp
  ultimately have "- (2 ^ 63) \<le> sint i + 1" "sint i + 1 < 2 ^ 63" by simp_all
  then have "signed_take_bit 63 (sint i + 1) = sint i + 1"
    by (intro signed_take_bit_int_eq_self) simp_all
  then show ?thesis by (simp add: sint_word_ariths)
qed

lemma sint_of_nat_go_int:
  assumes "k < 2 ^ 63"
  shows "sint (of_nat k :: go_int) = int k"
proof -
  have "signed_take_bit 63 (int k) = int k"
    using assms by (intro signed_take_bit_int_eq_self) simp_all
  then show ?thesis by (simp add: signed_of_nat)
qed

lemma iterate_0: "iterate en 0 s = s" by (simp add: iterate_def)
lemma iterate_Suc: "iterate en (Suc m) s = Send_body en (of_nat m) (iterate en m s)"
  by (simp add: iterate_def)

lemma Send_loop_fold:
  "0 \<le> sint i \<Longrightarrow> Send_loop en i n s = fold (\<lambda>k. Send_body en (of_nat k)) [nat (sint i)..<nat (sint n)] s"
proof (induction en i n s rule: Send_loop.induct)
  case (1 en i n s)
  show ?case
  proof (cases "i <s n")
    case True
    then have lt: "sint i < sint n" by (simp add: word_sless_alt)
    have suc: "sint (i + 1) = sint i + 1" by (rule sint_succ_of_sless [OF True])
    have i: "of_nat (nat (sint i)) = i" using "1.prems" by simp
    have lt': "nat (sint i) < nat (sint n)" using lt "1.prems" by linarith
    have sucnat: "nat (sint (i + 1)) = Suc (nat (sint i))" using suc "1.prems" by linarith
    have upt: "[nat (sint i)..<nat (sint n)] = nat (sint i) # [Suc (nat (sint i))..<nat (sint n)]"
      using lt' by (rule upt_conv_Cons)
    have nonneg: "0 \<le> sint (i + 1)" using suc "1.prems" by linarith
    have "Send_loop en i n s = Send_loop en (i + 1) n (Send_body en i s)"
      using True by (subst Send_loop.simps) (simp only: if_True)
    also have "\<dots> = fold (\<lambda>k. Send_body en (of_nat k)) [nat (sint (i + 1))..<nat (sint n)] (Send_body en i s)"
      using True nonneg by (rule "1.IH")
    also have "\<dots> = fold (\<lambda>k. Send_body en (of_nat k)) [nat (sint i)..<nat (sint n)] s"
      by (simp only: upt sucnat fold_simps i o_apply)
    finally show ?thesis .
  next
    case False
    then have "nat (sint n) \<le> nat (sint i)" by (simp add: word_sless_alt)
    then have "[nat (sint i)..<nat (sint n)] = []" by simp
    moreover have "Send_loop en i n s = s"
      using False by (subst Send_loop.simps) (simp only: if_False)
    ultimately show ?thesis by (simp only: fold_simps id_apply)
  qed
qed

lemma Send_iterate:
  "Send en n (ps, w) =
     snd (iterate en (nat (sint n)) (\<lparr>msgTopic = Topic (canaryConfig ps), Value = None, Partition = 0\<rparr>, ps, w))"
proof -
  have "Send_loop en 0 n s = iterate en (nat (sint n)) s" for s
    using Send_loop_fold [of 0 en n s] by (simp add: iterate_def)
  then show ?thesis by (simp add: Send_def)
qed

lemma numbered_Nil: "numbered [] = []"
  by (simp add: numbered_def)

lemma numbered_snoc: "numbered (xs @ [x]) = numbered xs @ [(length xs, x)]"
  by (simp add: numbered_def)

lemma ucast_of_nat_int32: "(ucast (of_nat k :: go_int) :: int32) = of_nat k"
proof -
  have "take_bit 32 (take_bit 64 k) = take_bit 32 k"
    by (simp add: take_bit_take_bit)
  then show ?thesis
    by (simp add: unsigned_of_nat word_of_nat_eq_iff)
qed

subsection \<open>One iteration, and the loop, in terms of the exchanges\<close>

lemma eventsBy_snoc:
  "eventsBy ps (xs @ [x]) = eventsBy ps xs @ attemptEvents ps (length xs) x"
  by (simp add: eventsBy_def numbered_snoc)

lemma producedBy_snoc:
  "producedBy ps (xs @ [x]) l = producedBy ps xs l + (if partitionLabels ps (length xs) = l then 1 else 0)"
  by (simp add: producedBy_def numbered_snoc)

lemma failedBy_snoc:
  "failedBy ps (xs @ [x]) l =
     failedBy ps xs l + (if partitionLabels ps (length xs) = l \<and> failed x then 1 else 0)"
  by (simp add: failedBy_def numbered_snoc)

lemma samplesBy_snoc:
  "samplesBy ps (xs @ [x]) l =
     samplesBy ps xs l @ (if partitionLabels ps (length xs) = l \<and> \<not> failed x then [Float64 (latency x)] else [])"
  by (simp add: samplesBy_def numbered_snoc)

lemma Inc_producedBy:
  "Inc (partitionLabels ps (length xs)) (\<lambda>l. c l + producedBy ps xs l) =
     (\<lambda>l. c l + producedBy ps (xs @ [x]) l)"
  by (rule ext) (simp add: Inc_def producedBy_snoc)

lemma Inc_failedBy:
  "(if failed x then Inc (partitionLabels ps (length xs)) (\<lambda>l. c l + failedBy ps xs l)
    else (\<lambda>l. c l + failedBy ps xs l)) =
     (\<lambda>l. c l + failedBy ps (xs @ [x]) l)"
  by (rule ext) (simp add: Inc_def failedBy_snoc)

lemma Observe_samplesBy:
  "(if failed x then (\<lambda>l. h l @ samplesBy ps xs l)
    else Observe (partitionLabels ps (length xs)) (Float64 (latency x)) (\<lambda>l. h l @ samplesBy ps xs l)) =
     (\<lambda>l. h l @ samplesBy ps (xs @ [x]) l)"
  by (rule ext) (simp add: Observe_def samplesBy_snoc)

lemma Send_body_exchange:
  assumes topic: "msgTopic msg' = Topic (canaryConfig ps)"
    and idx: "index ps' = index ps + of_nat m"
    and cfg: "canaryConfig ps' = canaryConfig ps"
  shows "\<exists>x. (\<exists>tr. result x = env_SendMessage en tr (sent ps m x)) \<and>
    Send_body en (of_nat m) (msg', ps', w') =
      (sent ps m x, ps'\<lparr>index := index ps + of_nat (Suc m)\<rparr>,
       w'\<lparr>trace := trace w' @ attemptEvents ps m x,
          recordsProduced := Inc (partitionLabels ps m) (recordsProduced w'),
          recordsProducedFailed :=
            (if failed x then Inc (partitionLabels ps m) (recordsProducedFailed w')
             else recordsProducedFailed w'),
          recordsProducedLatency :=
            (if failed x then recordsProducedLatency w'
             else Observe (partitionLabels ps m) (Float64 (latency x)) (recordsProducedLatency w'))\<rparr>)"
proof -
  define t0 where "t0 = env_UnixNano en (trace w')"
  define cm where "cm = \<lparr>ProducerID = ClientID (canaryConfig ps), MessageID = index ps + of_nat (Suc m),
    Timestamp = millis t0\<rparr>"
  define M where "M = \<lparr>msgTopic = Topic (canaryConfig ps), Value = Some (Json cm), Partition = of_nat m\<rparr>"
  define tr1 where "tr1 = trace w' @ [UnixNano t0, Printf (LogSendingMessage (Some (Json cm)) (of_nat m))]"
  define r where "r = env_SendMessage en tr1 M"
  define t1 where "t1 = env_UnixNano en (tr1 @ [SendMessage M r])"
  define x where "x = \<lparr>createdNanos = t0, result = r, ackNanos = t1\<rparr>"
  have probe: "probe ps m x = cm"
    by (simp add: probe_def cm_def x_def)
  have sent: "sent ps m x = M"
    by (simp add: sent_def probe M_def)
  have res: "result x = env_SendMessage en tr1 (sent ps m x)"
    by (simp only: sent) (simp add: x_def r_def)
  have M: "msg'\<lparr>Value := Some (Json cm), Partition := of_nat m\<rparr> = M"
    using topic by (cases msg') (simp add: M_def)
  have new: "newCanaryMessage en (ps', w') = (cm, ps'\<lparr>index := index ps + of_nat (Suc m)\<rparr>, emit (UnixNano t0) w')"
    by (simp add: newCanaryMessage_def Let_def t0_def cm_def idx cfg add.assoc)
  have ev: "attemptEvents ps m x =
      [UnixNano t0, Printf (LogSendingMessage (Some (Json cm)) (of_nat m)), SendMessage M r, UnixNano t1,
       Printf (case r of (p, off, Some e) \<Rightarrow> LogErrorSendingMessage e
               | (p, off, None) \<Rightarrow> LogMessageSent p off (millis t1 - millis t0))]"
    by (simp add: attemptEvents_def probe sent) (simp add: x_def latency_def)
  have Mval: "Value M = Some (Json cm)" and Mpart: "Partition M = of_nat m"
    and cmts: "Timestamp cm = millis t0"
    by (simp_all add: M_def cm_def)
  obtain p off err where r: "r = (p, off, err)"
    by (cases r)
  have sendmsg: "env_SendMessage en (trace w' @ [UnixNano t0, Printf (LogSendingMessage (Some (Json cm)) (of_nat m))]) M
      = (p, off, err)"
    using r by (simp add: r_def tr1_def)
  have clock: "env_UnixNano en (trace w' @ [UnixNano t0, Printf (LogSendingMessage (Some (Json cm)) (of_nat m)),
      SendMessage M (p, off, err)]) = t1"
    using r by (simp add: t1_def tr1_def)
  have "Send_body en (of_nat m) (msg', ps', w') =
      (sent ps m x, ps'\<lparr>index := index ps + of_nat (Suc m)\<rparr>,
       w'\<lparr>trace := trace w' @ attemptEvents ps m x,
          recordsProduced := Inc (partitionLabels ps m) (recordsProduced w'),
          recordsProducedFailed :=
            (if failed x then Inc (partitionLabels ps m) (recordsProducedFailed w')
             else recordsProducedFailed w'),
          recordsProducedLatency :=
            (if failed x then recordsProducedLatency w'
             else Observe (partitionLabels ps m) (Float64 (latency x)) (recordsProducedLatency w'))\<rparr>)"
    unfolding sent ev
    using sendmsg clock
    by (cases err)
      (simp_all add: Send_body_def new emit_def Let_def ucast_of_nat_int32 M Mval Mpart cmts r
        partitionLabels_def cfg failed_def latency_def x_def)
  with res show ?thesis by blast
qed

lemma iterate_exchanges:
  assumes topic0: "msgTopic msg = Topic (canaryConfig ps)"
  shows "\<exists>xs msg'. length xs = m \<and> msgTopic msg' = Topic (canaryConfig ps) \<and> answered en ps xs \<and>
     iterate en m (msg, ps, w) =
       (msg', ps\<lparr>index := index ps + of_nat m\<rparr>,
        w\<lparr>trace := trace w @ eventsBy ps xs,
          recordsProduced := (\<lambda>l. recordsProduced w l + producedBy ps xs l),
          recordsProducedFailed := (\<lambda>l. recordsProducedFailed w l + failedBy ps xs l),
          recordsProducedLatency := (\<lambda>l. recordsProducedLatency w l @ samplesBy ps xs l)\<rparr>)"
proof (induction m)
  case 0
  show ?case
    using topic0 by (intro exI [of _ "[]"] exI [of _ msg])
       (simp add: iterate_0 answered_def eventsBy_def producedBy_def failedBy_def samplesBy_def numbered_Nil)
next
  case (Suc m)
  then obtain xs msg' where len: "length xs = m" and topic: "msgTopic msg' = Topic (canaryConfig ps)"
    and ans: "answered en ps xs"
    and it: "iterate en m (msg, ps, w) =
       (msg', ps\<lparr>index := index ps + of_nat m\<rparr>,
        w\<lparr>trace := trace w @ eventsBy ps xs,
          recordsProduced := (\<lambda>l. recordsProduced w l + producedBy ps xs l),
          recordsProducedFailed := (\<lambda>l. recordsProducedFailed w l + failedBy ps xs l),
          recordsProducedLatency := (\<lambda>l. recordsProducedLatency w l @ samplesBy ps xs l)\<rparr>)"
    by blast
  let ?ps = "ps\<lparr>index := index ps + of_nat m\<rparr>"
  let ?w = "w\<lparr>trace := trace w @ eventsBy ps xs,
          recordsProduced := (\<lambda>l. recordsProduced w l + producedBy ps xs l),
          recordsProducedFailed := (\<lambda>l. recordsProducedFailed w l + failedBy ps xs l),
          recordsProducedLatency := (\<lambda>l. recordsProducedLatency w l @ samplesBy ps xs l)\<rparr>"
  have "index ?ps = index ps + of_nat m" "canaryConfig ?ps = canaryConfig ps"
    by simp_all
  from Send_body_exchange [OF topic this, of en ?w]
  obtain x where res: "\<exists>tr. result x = env_SendMessage en tr (sent ps m x)"
    and body: "Send_body en (of_nat m) (msg', ?ps, ?w) =
      (sent ps m x, ?ps\<lparr>index := index ps + of_nat (Suc m)\<rparr>,
       ?w\<lparr>trace := trace ?w @ attemptEvents ps m x,
          recordsProduced := Inc (partitionLabels ps m) (recordsProduced ?w),
          recordsProducedFailed :=
            (if failed x then Inc (partitionLabels ps m) (recordsProducedFailed ?w)
             else recordsProducedFailed ?w),
          recordsProducedLatency :=
            (if failed x then recordsProducedLatency ?w
             else Observe (partitionLabels ps m) (Float64 (latency x)) (recordsProducedLatency ?w))\<rparr>)"
    by blast
  have ans': "answered en ps (xs @ [x])"
    using ans len res by (auto simp: answered_def numbered_snoc)
  have "iterate en (Suc m) (msg, ps, w) =
       (sent ps m x, ps\<lparr>index := index ps + of_nat (Suc m)\<rparr>,
        w\<lparr>trace := trace w @ eventsBy ps (xs @ [x]),
          recordsProduced := (\<lambda>l. recordsProduced w l + producedBy ps (xs @ [x]) l),
          recordsProducedFailed := (\<lambda>l. recordsProducedFailed w l + failedBy ps (xs @ [x]) l),
          recordsProducedLatency := (\<lambda>l. recordsProducedLatency w l @ samplesBy ps (xs @ [x]) l)\<rparr>)"
    unfolding iterate_Suc it body
    using Inc_producedBy [of ps xs "recordsProduced w" x]
      Inc_failedBy [of x ps xs "recordsProducedFailed w"]
      Observe_samplesBy [of x "recordsProducedLatency w" ps xs]
    by (cases "failed x") (simp_all add: eventsBy_snoc len)
  then show ?case
    using len ans' by (intro exI [of _ "xs @ [x]"] exI [of _ "sent ps m x"]) (simp add: sent_def)
qed


lemma Send_exchanges:
  "\<exists>xs. length xs = nat (sint n) \<and> answered en ps xs \<and>
     Send en n (ps, w) =
       (ps\<lparr>index := index ps + of_nat (length xs)\<rparr>,
        w\<lparr>trace := trace w @ eventsBy ps xs,
          recordsProduced := (\<lambda>l. recordsProduced w l + producedBy ps xs l),
          recordsProducedFailed := (\<lambda>l. recordsProducedFailed w l + failedBy ps xs l),
          recordsProducedLatency := (\<lambda>l. recordsProducedLatency w l @ samplesBy ps xs l)\<rparr>)"
proof -
  let ?msg = "\<lparr>msgTopic = Topic (canaryConfig ps), Value = None, Partition = 0\<rparr>"
  have "msgTopic ?msg = Topic (canaryConfig ps)" by simp
  from iterate_exchanges [OF this, of "nat (sint n)" en w]
  obtain xs msg' where "length xs = nat (sint n)" "answered en ps xs"
    "iterate en (nat (sint n)) (?msg, ps, w) =
       (msg', ps\<lparr>index := index ps + of_nat (nat (sint n))\<rparr>,
        w\<lparr>trace := trace w @ eventsBy ps xs,
          recordsProduced := (\<lambda>l. recordsProduced w l + producedBy ps xs l),
          recordsProducedFailed := (\<lambda>l. recordsProducedFailed w l + failedBy ps xs l),
          recordsProducedLatency := (\<lambda>l. recordsProducedLatency w l @ samplesBy ps xs l)\<rparr>)"
    by blast
  then show ?thesis
    by (intro exI [of _ xs]) (simp add: Send_iterate)
qed

subsection \<open>Metrics of one label set\<close>

lemma nat_sint_bound: "nat (sint (n :: go_int)) < 2 ^ 63"
proof -
  have "sint n < 2 ^ 63" using sint_lt [of n] by simp
  then show ?thesis by (cases "0 \<le> sint n") (simp_all add: nat_less_iff)
qed

lemma of_nat_go_int_inj:
  assumes "k < 2 ^ 64" "j < 2 ^ 64" "(of_nat k :: go_int) = of_nat j"
  shows "k = j"
proof -
  from assms(3) have "take_bit 64 k = take_bit 64 j"
    by (simp add: word_of_nat_eq_iff)
  with assms(1,2) show ?thesis
    by (simp add: take_bit_nat_eq_self)
qed

lemma partitionLabels_inj:
  assumes "k < 2 ^ 64" "j < 2 ^ 64" "partitionLabels ps k = partitionLabels ps j"
  shows "k = j"
proof -
  from assms(3) have "Itoa (of_nat k) = Itoa (of_nat j)"
    by (simp add: partitionLabels_def)
  then have "(of_nat k :: go_int) = of_nat j" by (rule Itoa_inj)
  with assms(1,2) show ?thesis by (rule of_nat_go_int_inj)
qed

lemma numbered_index: "(j, x) \<in> set (numbered xs) \<Longrightarrow> j < length xs \<and> x = xs ! j"
  by (auto simp: numbered_def set_zip)

lemma filter_numbered_other:
  assumes "l \<notin> partitionLabels ps ` {..<length xs}"
  shows "filter (\<lambda>(j, x). partitionLabels ps j = l \<and> P x) (numbered xs) = []"
proof -
  have "\<not> (partitionLabels ps j = l \<and> P x)" if "(j, x) \<in> set (numbered xs)" for j x
    using that assms numbered_index [of j x xs] by auto
  then show ?thesis by (auto simp: filter_empty_conv)
qed

lemma filter_numbered_label:
  assumes "length xs \<le> 2 ^ 64" "k < length xs"
  shows "filter (\<lambda>(j, x). partitionLabels ps j = partitionLabels ps k \<and> P x) (numbered xs) =
         (if P (xs ! k) then [(k, xs ! k)] else [])"
  using assms
proof (induction xs rule: rev_induct)
  case Nil
  then show ?case by simp
next
  case (snoc x xs)
  have len: "length xs < 2 ^ 64" using snoc.prems(1) by simp
  show ?case
  proof (cases "k < length xs")
    case True
    then have neq: "partitionLabels ps (length xs) \<noteq> partitionLabels ps k"
      using partitionLabels_inj [of "length xs" k ps] len by auto
    from True len have "filter (\<lambda>(j, x). partitionLabels ps j = partitionLabels ps k \<and> P x) (numbered xs) =
         (if P (xs ! k) then [(k, xs ! k)] else [])"
      by (intro snoc.IH) simp_all
    with True neq show ?thesis
      by (simp add: numbered_snoc nth_append)
  next
    case False
    with snoc.prems(2) have k: "k = length xs" by simp
    have "partitionLabels ps k \<notin> partitionLabels ps ` {..<length xs}"
    proof
      assume "partitionLabels ps k \<in> partitionLabels ps ` {..<length xs}"
      then obtain j where "j < length xs" "partitionLabels ps k = partitionLabels ps j" by auto
      with partitionLabels_inj [of k j ps] len k show False by simp
    qed
    then have "filter (\<lambda>(j, x). partitionLabels ps j = partitionLabels ps k \<and> P x) (numbered xs) = []"
      by (rule filter_numbered_other)
    with k show ?thesis by (simp add: numbered_snoc)
  qed
qed

lemma producedBy_label:
  assumes "length xs \<le> 2 ^ 64" "k < length xs"
  shows "producedBy ps xs (partitionLabels ps k) = 1"
  using filter_numbered_label [OF assms, of ps "\<lambda>x. True"] by (simp add: producedBy_def)

lemma producedBy_other:
  assumes "l \<notin> partitionLabels ps ` {..<length xs}"
  shows "producedBy ps xs l = 0"
  using filter_numbered_other [OF assms, of "\<lambda>x. True"] by (simp add: producedBy_def)

lemma failedBy_label:
  assumes "length xs \<le> 2 ^ 64" "k < length xs"
  shows "failedBy ps xs (partitionLabels ps k) = (if failed (xs ! k) then 1 else 0)"
  using filter_numbered_label [OF assms, of ps failed] by (simp add: failedBy_def)

lemma failedBy_other:
  assumes "l \<notin> partitionLabels ps ` {..<length xs}"
  shows "failedBy ps xs l = 0"
  using filter_numbered_other [OF assms, of failed] by (simp add: failedBy_def)

lemma samplesBy_label:
  assumes "length xs \<le> 2 ^ 64" "k < length xs"
  shows "samplesBy ps xs (partitionLabels ps k) = (if failed (xs ! k) then [] else [Float64 (latency (xs ! k))])"
  using filter_numbered_label [OF assms, of ps "\<lambda>x. \<not> failed x"] by (simp add: samplesBy_def)

lemma samplesBy_other:
  assumes "l \<notin> partitionLabels ps ` {..<length xs}"
  shows "samplesBy ps xs l = []"
  using filter_numbered_other [OF assms, of "\<lambda>x. \<not> failed x"] by (simp add: samplesBy_def)

subsection \<open>The attempts in the trace\<close>

lemma attempts_append: "attempts (es @ fs) = attempts es @ attempts fs"
  by (induction es rule: attempts.induct) simp_all

lemma attempts_eventsBy:
  "attempts (eventsBy ps xs) = map (\<lambda>(k, x). (sent ps k x, result x)) (numbered xs)"
proof (induction xs rule: rev_induct)
  case Nil
  show ?case by (simp add: eventsBy_def numbered_Nil)
next
  case (snoc x xs)
  have "attempts (attemptEvents ps (length xs) x) = [(sent ps (length xs) x, result x)]"
    by (simp add: attemptEvents_def)
  with snoc show ?case
    by (simp add: eventsBy_snoc attempts_append numbered_snoc)
qed

lemma map_numbered: "map (\<lambda>(k, x). f k) (numbered xs) = map f [0..<length xs]"
  by (induction xs rule: rev_induct) (simp_all add: numbered_Nil numbered_snoc)

lemma partitions_eventsBy:
  "map (\<lambda>(m, r). Partition m) (attempts (eventsBy ps xs)) = map of_nat [0..<length xs]"
proof -
  have "map (\<lambda>(m, r). Partition m) (attempts (eventsBy ps xs)) =
      map (\<lambda>(k, x). (of_nat k :: int32)) (numbered xs)"
    by (simp add: attempts_eventsBy sent_def case_prod_unfold comp_def)
  then show ?thesis by (simp add: map_numbered)
qed

subsection \<open>Milliseconds and latencies stay in range\<close>

lemma sint_millis: "sint (millis x) = sint x sdiv 1000000"
  and millis_range: "\<bar>sint (millis x)\<bar> \<le> 9223372036854"
proof -
  define k where "k = sint x"
  have "- (2 ^ 63) \<le> k" "k < 2 ^ 63"
    using sint_ge [of x] sint_lt [of x] by (simp_all add: k_def)
  then have "\<bar>k\<bar> \<le> 2 ^ 63" by simp
  then have "\<bar>k\<bar> div 1000000 \<le> 2 ^ 63 div 1000000"
    by (rule zdiv_mono1) simp
  then have d: "\<bar>k\<bar> div 1000000 \<le> 9223372036854" by simp
  have "\<bar>k sdiv 1000000\<bar> = \<bar>k\<bar> div 1000000"
    by (cases "k = 0") (simp_all add: signed_divide_int_def abs_mult abs_sgn_eq pos_imp_zdiv_nonneg_iff)
  with d have q: "\<bar>k sdiv 1000000\<bar> \<le> 9223372036854" by simp
  then have "signed_take_bit 63 (k sdiv 1000000) = k sdiv 1000000"
    by (intro signed_take_bit_int_eq_self) simp_all
  then show s: "sint (millis x) = sint x sdiv 1000000"
    by (simp add: millis_def signed_of_int k_def)
  from q show "\<bar>sint (millis x)\<bar> \<le> 9223372036854"
    by (simp only: s k_def)
qed

lemma sint_latency:
  "sint (latency x) = sint (millis (ackNanos x)) - sint (millis (createdNanos x))"
  and latency_range: "\<bar>sint (latency x)\<bar> < 2 ^ 53"
proof -
  define a where "a = sint (millis (ackNanos x))"
  define c where "c = sint (millis (createdNanos x))"
  have "\<bar>a\<bar> \<le> 9223372036854" "\<bar>c\<bar> \<le> 9223372036854"
    by (simp_all only: a_def c_def millis_range)
  then have r: "\<bar>a - c\<bar> \<le> 18446744073708" by simp
  then have "signed_take_bit 63 (a - c) = a - c"
    by (intro signed_take_bit_int_eq_self) simp_all
  then show s: "sint (latency x) = sint (millis (ackNanos x)) - sint (millis (createdNanos x))"
    by (simp add: latency_def sint_word_ariths a_def c_def)
  from r show "\<bar>sint (latency x)\<bar> < 2 ^ 53"
    by (simp only: s a_def [symmetric] c_def [symmetric]) simp
qed


subsection \<open>A call of Send\<close>

lemma length_exchanges_bound: "length xs = nat (sint (n :: go_int)) \<Longrightarrow> length xs \<le> 2 ^ 64"
  using nat_sint_bound [of n] by simp

lemma nth_numbered: "k < length xs \<Longrightarrow> numbered xs ! k = (k, xs ! k)"
  by (simp add: numbered_def)

lemma Send_run:
  obtains xs where "length xs = nat (sint n)" and "answered en ps xs"
    and "fst (Send en n (ps, w)) = ps\<lparr>index := index ps + of_nat (nat (sint n))\<rparr>"
    and "trace (snd (Send en n (ps, w))) = trace w @ eventsBy ps xs"
    and "attempts (trace (snd (Send en n (ps, w)))) = attempts (trace w) @ newAttempts w (snd (Send en n (ps, w)))"
    and "newAttempts w (snd (Send en n (ps, w))) = map (\<lambda>(k, x). (sent ps k x, result x)) (numbered xs)"
    and "\<And>k. k < nat (sint n) \<Longrightarrow>
          recordsProduced (snd (Send en n (ps, w))) (partitionLabels ps k) =
            recordsProduced w (partitionLabels ps k) + 1"
    and "\<And>k. k < nat (sint n) \<Longrightarrow>
          recordsProducedFailed (snd (Send en n (ps, w))) (partitionLabels ps k) =
            recordsProducedFailed w (partitionLabels ps k) + (if failed (xs ! k) then 1 else 0)"
    and "\<And>k. k < nat (sint n) \<Longrightarrow>
          recordsProducedLatency (snd (Send en n (ps, w))) (partitionLabels ps k) =
            recordsProducedLatency w (partitionLabels ps k) @
              (if failed (xs ! k) then [] else [Float64 (latency (xs ! k))])"
    and "\<And>l. l \<notin> partitionLabels ps ` {..<nat (sint n)} \<Longrightarrow>
          recordsProduced (snd (Send en n (ps, w))) l = recordsProduced w l \<and>
          recordsProducedFailed (snd (Send en n (ps, w))) l = recordsProducedFailed w l \<and>
          recordsProducedLatency (snd (Send en n (ps, w))) l = recordsProducedLatency w l"
proof -
  from Send_exchanges [of n en ps w] obtain xs where len: "length xs = nat (sint n)"
    and ans: "answered en ps xs"
    and eq: "Send en n (ps, w) =
       (ps\<lparr>index := index ps + of_nat (length xs)\<rparr>,
        w\<lparr>trace := trace w @ eventsBy ps xs,
          recordsProduced := (\<lambda>l. recordsProduced w l + producedBy ps xs l),
          recordsProducedFailed := (\<lambda>l. recordsProducedFailed w l + failedBy ps xs l),
          recordsProducedLatency := (\<lambda>l. recordsProducedLatency w l @ samplesBy ps xs l)\<rparr>)"
    by blast
  have b: "length xs \<le> 2 ^ 64" using len by (rule length_exchanges_bound)
  show thesis
  proof (rule that [of xs])
    show "length xs = nat (sint n)" by (fact len)
    show "answered en ps xs" by (fact ans)
    show "fst (Send en n (ps, w)) = ps\<lparr>index := index ps + of_nat (nat (sint n))\<rparr>"
      by (simp add: eq len)
    show "trace (snd (Send en n (ps, w))) = trace w @ eventsBy ps xs"
      by (simp add: eq)
    show "attempts (trace (snd (Send en n (ps, w)))) = attempts (trace w) @ newAttempts w (snd (Send en n (ps, w)))"
      by (simp add: eq newAttempts_def attempts_append)
    show "newAttempts w (snd (Send en n (ps, w))) = map (\<lambda>(k, x). (sent ps k x, result x)) (numbered xs)"
      by (simp add: eq newAttempts_def attempts_append attempts_eventsBy)
  next
    fix k assume "k < nat (sint n)"
    then have k: "k < length xs" by (simp add: len)
    show "recordsProduced (snd (Send en n (ps, w))) (partitionLabels ps k) =
            recordsProduced w (partitionLabels ps k) + 1"
      by (simp add: eq producedBy_label [OF b k])
    show "recordsProducedFailed (snd (Send en n (ps, w))) (partitionLabels ps k) =
            recordsProducedFailed w (partitionLabels ps k) + (if failed (xs ! k) then 1 else 0)"
      by (simp add: eq failedBy_label [OF b k])
    show "recordsProducedLatency (snd (Send en n (ps, w))) (partitionLabels ps k) =
            recordsProducedLatency w (partitionLabels ps k) @
              (if failed (xs ! k) then [] else [Float64 (latency (xs ! k))])"
      by (simp add: eq samplesBy_label [OF b k])
  next
    fix l assume "l \<notin> partitionLabels ps ` {..<nat (sint n)}"
    then have l: "l \<notin> partitionLabels ps ` {..<length xs}" by (simp add: len)
    show "recordsProduced (snd (Send en n (ps, w))) l = recordsProduced w l \<and>
          recordsProducedFailed (snd (Send en n (ps, w))) l = recordsProducedFailed w l \<and>
          recordsProducedLatency (snd (Send en n (ps, w))) l = recordsProducedLatency w l"
      by (simp add: eq producedBy_other [OF l] failedBy_other [OF l] samplesBy_other [OF l])
  qed
qed

lemma Send_partitions:
  "map (\<lambda>(m, r). Partition m) (newAttempts w (snd (Send en n (ps, w)))) = map of_nat [0..<nat (sint n)]"
proof -
  obtain xs where "length xs = nat (sint n)"
    and "newAttempts w (snd (Send en n (ps, w))) = map (\<lambda>(k, x). (sent ps k x, result x)) (numbered xs)"
    by (rule Send_run [of n en ps w]) blast
  moreover have "map (\<lambda>(m, r). Partition m) (map (\<lambda>(k, x). (sent ps k x, result x)) (numbered xs)) =
      map (\<lambda>(k, x). (of_nat k :: int32)) (numbered xs)"
    by (simp add: sent_def case_prod_unfold comp_def)
  ultimately show ?thesis by (simp add: map_numbered)
qed

lemma sint_of_nat_int32:
  assumes "k < 2 ^ 31"
  shows "sint (of_nat k :: int32) = int k"
proof -
  have "signed_take_bit 31 (int k) = int k"
    using assms by (intro signed_take_bit_int_eq_self) simp_all
  then show ?thesis by (simp add: signed_of_nat)
qed

lemma Send_partitions_sint:
  assumes "sint n \<le> 2 ^ 31"
  shows "map (\<lambda>(m, r). sint (Partition m)) (newAttempts w (snd (Send en n (ps, w)))) =
     map int [0..<nat (sint n)]"
proof -
  have "map sint (map (\<lambda>(m, r). Partition m) (newAttempts w (snd (Send en n (ps, w))))) =
     map sint (map (of_nat :: nat \<Rightarrow> int32) [0..<nat (sint n)])"
    by (simp only: Send_partitions)
  moreover have "map sint (map (of_nat :: nat \<Rightarrow> int32) [0..<nat (sint n)]) = map int [0..<nat (sint n)]"
  proof -
    have "sint (of_nat k :: int32) = int k" if "k \<in> set [0..<nat (sint n)]" for k
    proof -
      from that assms have "int k < 2 ^ 31" by simp
      then have "k < 2 ^ 31" by (simp add: of_nat_less_iff [symmetric] del: of_nat_less_iff)
      then show ?thesis by (rule sint_of_nat_int32)
    qed
    then show ?thesis by (simp add: comp_def)
  qed
  ultimately show ?thesis
    by (simp add: case_prod_unfold comp_def)
qed

lemma Send_produced:
  "recordsProduced (snd (Send en n (ps, w))) l =
     recordsProduced w l + (if l \<in> partitionLabels ps ` {..<nat (sint n)} then 1 else 0)"
proof (cases "l \<in> partitionLabels ps ` {..<nat (sint n)}")
  case True
  then obtain k where k: "k < nat (sint n)" "l = partitionLabels ps k" by auto
  obtain xs :: "exchange list" where "\<And>k. k < nat (sint n) \<Longrightarrow>
          recordsProduced (snd (Send en n (ps, w))) (partitionLabels ps k) =
            recordsProduced w (partitionLabels ps k) + 1"
    by (rule Send_run [of n en ps w]) blast
  with k True show ?thesis by simp
next
  case False
  obtain xs :: "exchange list" where "\<And>l. l \<notin> partitionLabels ps ` {..<nat (sint n)} \<Longrightarrow>
          recordsProduced (snd (Send en n (ps, w))) l = recordsProduced w l \<and>
          recordsProducedFailed (snd (Send en n (ps, w))) l = recordsProducedFailed w l \<and>
          recordsProducedLatency (snd (Send en n (ps, w))) l = recordsProducedLatency w l"
    by (rule Send_run [of n en ps w]) blast
  with False show ?thesis by simp
qed


section \<open>Properties\<close>

subsection \<open>No partitions\<close>

text \<open>
  Claim C7. \<^verbatim>\<open>Send\<close> with \<^verbatim>\<open>numPartitions = 0\<close> is a complete no-op: it returns the
  service value and the world it was given. So the counter \<^verbatim>\<open>index\<close> keeps its value, the
  trace gains no event (no clock reading, so no message was constructed; no log line; no
  \<^verbatim>\<open>SendMessage\<close>), and the three metric vectors are the same.
\<close>

theorem Send_zero_noop: "Send en 0 (ps, w) = (ps, w)"
  by (simp add: Send_iterate iterate_0)

text \<open>
  Claim C10. For every \<^verbatim>\<open>numPartitions < 0\<close> the loop condition \<^verbatim>\<open>0 < numPartitions\<close>
  is false at once: \<^verbatim>\<open>Send\<close> returns the service value and the world it was given, which is
  also what it returns for \<^verbatim>\<open>numPartitions = 0\<close>; it does not fail.
\<close>

theorem Send_negative_noop:
  assumes "n <s 0"
  shows "Send en n (ps, w) = (ps, w) \<and> Send en n (ps, w) = Send en 0 (ps, w)"
proof -
  from assms have "nat (sint n) = 0"
    by (simp add: word_sless_alt)
  then show ?thesis
    by (simp add: Send_iterate iterate_0)
qed

theorem Send_negative_noop_witness:
  "(- 3 :: go_int) <s 0 \<and>
   Send fakeEnv (- 3) (fakeService, emptyWorld) = (fakeService, emptyWorld) \<and>
   Send fakeEnv (- 3) (fakeService, emptyWorld) = Send fakeEnv 0 (fakeService, emptyWorld)"
proof -
  have neg: "(- 3 :: go_int) <s 0"
    by (simp add: word_sless_alt)
  from Send_negative_noop [OF neg, of fakeEnv fakeService emptyWorld] neg
  show ?thesis by blast
qed

subsection \<open>Metadata refresh\<close>

text \<open>
  Claim C9. \<^verbatim>\<open>Refresh\<close> returns normally whatever the client's \<^verbatim>\<open>RefreshMetadata\<close> answers
  (its result has no way to carry an exit or a panic): it returns the service value
  unchanged, and a world that differs from the given one in the trace only, which gains
  the announcement, the call, and, when the call reports an error, one log line with that
  error. The counter \<^verbatim>\<open>index\<close> and the three metric vectors are unchanged.
\<close>

theorem Refresh_only_logs:
  "Refresh en (ps, w) =
     (let topic = Topic (canaryConfig ps);
          err = env_RefreshMetadata en (trace w @ [Printf LogRefreshingMetadata]) topic
      in (ps, w\<lparr>trace := trace w @ [Printf LogRefreshingMetadata, RefreshMetadata topic err] @
                     (case err of None \<Rightarrow> [] | Some e \<Rightarrow> [Printf (LogErrorRefreshingMetadata e)])\<rparr>))"
  by (simp add: Refresh_def emit_def Let_def split: option.split)

end
